theory Spec2Isabelle
  imports Complex_Main "HOL-Library.Multiset" "HOL-Library.Sublist"
begin

section \<open>JavaScript values\<close>

text \<open>
  The analysis engine (\<^verbatim>\<open>js/gambit.js\<close>, the scout module and the helpers of the
  application module) computes with JavaScript numbers. A number is modelled as a real
  or one of the three special values. Finite arithmetic is exact: rounding, overflow
  and underflow of IEEE doubles are not modelled, and the two zeros are identified (a
  zero divisor counts as \<open>+0\<close>). The special values follow ECMAScript: \<open>NaN\<close>
  propagates through arithmetic, \<open>Math.min\<close> and \<open>Math.max\<close>, and every comparison
  with \<open>NaN\<close> is false.
\<close>

datatype jsnum = NaN | NInf | Fin real | PInf

text \<open>Sign of a number: \<open>-1\<close>, \<open>0\<close> or \<open>1\<close> (\<open>0\<close> also for \<open>NaN\<close>).\<close>

fun jsgn :: "jsnum \<Rightarrow> int" where
  "jsgn NaN = 0"
| "jsgn NInf = - 1"
| "jsgn PInf = 1"
| "jsgn (Fin x) = (if x < 0 then - 1 else if x = 0 then 0 else 1)"

text \<open>The operators \<^verbatim>\<open><\<close>, \<^verbatim>\<open><=\<close>, \<^verbatim>\<open>>\<close>, \<^verbatim>\<open>>=\<close> on numbers.\<close>

fun jlt :: "jsnum \<Rightarrow> jsnum \<Rightarrow> bool" where
  "jlt (Fin a) (Fin b) = (a < b)"
| "jlt NInf (Fin b) = True"
| "jlt NInf PInf = True"
| "jlt (Fin a) PInf = True"
| "jlt _ _ = False"

definition jle :: "jsnum \<Rightarrow> jsnum \<Rightarrow> bool" where
  "jle a b = (a \<noteq> NaN \<and> b \<noteq> NaN \<and> \<not> jlt b a)"

definition jgt :: "jsnum \<Rightarrow> jsnum \<Rightarrow> bool" where
  "jgt a b = jlt b a"

definition jge :: "jsnum \<Rightarrow> jsnum \<Rightarrow> bool" where
  "jge a b = jle b a"

text \<open>\<open>jleq a b\<close>: the value does not decrease from \<open>a\<close> to \<open>b\<close>, that is,
  \<^verbatim>\<open>a <= b\<close> holds or both are \<open>NaN\<close>.\<close>

definition jleq :: "jsnum \<Rightarrow> jsnum \<Rightarrow> bool" where
  "jleq a b = (jle a b \<or> (a = NaN \<and> b = NaN))"

text \<open>Unary minus and the binary operators \<^verbatim>\<open>+\<close>, \<^verbatim>\<open>-\<close>, \<^verbatim>\<open>*\<close>, \<^verbatim>\<open>/\<close>.\<close>

fun jneg :: "jsnum \<Rightarrow> jsnum" where
  "jneg NaN = NaN"
| "jneg NInf = PInf"
| "jneg PInf = NInf"
| "jneg (Fin x) = Fin (- x)"

fun jadd :: "jsnum \<Rightarrow> jsnum \<Rightarrow> jsnum" where
  "jadd (Fin a) (Fin b) = Fin (a + b)"
| "jadd NaN _ = NaN"
| "jadd _ NaN = NaN"
| "jadd PInf NInf = NaN"
| "jadd NInf PInf = NaN"
| "jadd PInf _ = PInf"
| "jadd _ PInf = PInf"
| "jadd NInf _ = NInf"
| "jadd _ NInf = NInf"

definition jsub :: "jsnum \<Rightarrow> jsnum \<Rightarrow> jsnum" where
  "jsub a b = jadd a (jneg b)"

fun jmul :: "jsnum \<Rightarrow> jsnum \<Rightarrow> jsnum" where
  "jmul (Fin a) (Fin b) = Fin (a * b)"
| "jmul a b =
     (if a = NaN \<or> b = NaN \<or> jsgn a = 0 \<or> jsgn b = 0 then NaN
      else if jsgn a = jsgn b then PInf else NInf)"

fun jdiv :: "jsnum \<Rightarrow> jsnum \<Rightarrow> jsnum" where
  "jdiv NaN _ = NaN"
| "jdiv _ NaN = NaN"
| "jdiv (Fin a) (Fin b) =
     (if b \<noteq> 0 then Fin (a / b)
      else if a = 0 then NaN else if 0 < a then PInf else NInf)"
| "jdiv (Fin a) _ = Fin 0"
| "jdiv PInf (Fin b) = (if 0 \<le> b then PInf else NInf)"
| "jdiv NInf (Fin b) = (if 0 \<le> b then NInf else PInf)"
| "jdiv _ _ = NaN"

text \<open>\<^verbatim>\<open>Math.min\<close> and \<^verbatim>\<open>Math.max\<close> of two arguments, and \<^verbatim>\<open>Math.min(...xs)\<close> of a
  spread array (\<open>Infinity\<close> for the empty array).\<close>

definition jmin :: "jsnum \<Rightarrow> jsnum \<Rightarrow> jsnum" where
  "jmin a b = (if a = NaN \<or> b = NaN then NaN else if jlt b a then b else a)"

definition jmax :: "jsnum \<Rightarrow> jsnum \<Rightarrow> jsnum" where
  "jmax a b = (if a = NaN \<or> b = NaN then NaN else if jlt a b then b else a)"

definition jminList :: "jsnum list \<Rightarrow> jsnum" where
  "jminList xs = foldr jmin xs PInf"

text \<open>\<^verbatim>\<open>Math.round\<close> (ties go up), \<^verbatim>\<open>Math.ceil\<close>, \<^verbatim>\<open>isFinite\<close> and the truth value
  of a number.\<close>

fun jround :: "jsnum \<Rightarrow> jsnum" where
  "jround (Fin x) = Fin (of_int \<lfloor>x + 1 / 2\<rfloor>)"
| "jround v = v"

fun jceil :: "jsnum \<Rightarrow> jsnum" where
  "jceil (Fin x) = Fin (of_int \<lceil>x\<rceil>)"
| "jceil v = v"

fun isFinite :: "jsnum \<Rightarrow> bool" where
  "isFinite (Fin x) = True"
| "isFinite _ = False"

definition truthy :: "jsnum \<Rightarrow> bool" where
  "truthy v = (v \<noteq> NaN \<and> v \<noteq> Fin 0)"

text \<open>
  A field that the code also tests with \<^verbatim>\<open>== null\<close>: missing (\<open>undefined\<close>),
  \<open>null\<close>, or a number. In arithmetic \<open>undefined\<close> converts to \<open>NaN\<close> and
  \<open>null\<close> to \<open>0\<close>.
\<close>

datatype jsval = Undefined | Null | Num jsnum

fun toNumber :: "jsval \<Rightarrow> jsnum" where
  "toNumber Undefined = NaN"
| "toNumber Null = Fin 0"
| "toNumber (Num n) = n"

fun isNullish :: "jsval \<Rightarrow> bool" where
  "isNullish (Num n) = False"
| "isNullish _ = True"

section \<open>Data model\<close>

text \<open>
  A planet as the API delivers it, with the fields the engine reads. Fields the code
  reads through \<^verbatim>\<open>?.\<close> or \<^verbatim>\<open>??\<close> or compares with \<open>null\<close> are options (\<open>None\<close>
  for \<open>null\<close> or a missing key); \<open>playerCount\<close> stands for
  \<^verbatim>\<open>planet.statistics?.playerCount\<close>. \<open>maxHealth\<close> and \<open>regenPerSecond\<close> are only
  used in arithmetic and truth tests, where a missing field behaves as \<open>NaN\<close> and
  \<open>null\<close> as \<open>0\<close>, so they are numbers. The \<open>endTime\<close> of an event is \<open>None\<close> when
  the string is missing or empty, and otherwise holds
  \<^verbatim>\<open>new Date(endTime).getTime()\<close>, the time stamp in milliseconds (\<open>NaN\<close> for a string
  that is not a date). A campaign carries its planet; its faction is not read by the
  engine.
\<close>

record event =
  endTime :: "jsnum option"

record planet =
  index :: "int option"
  health :: jsval
  maxHealth :: jsnum
  regenPerSecond :: jsnum
  playerCount :: "jsnum option"
  currentOwner :: "string option"
  waypoints :: "int list option"
  event :: "event option"

record campaign =
  planet :: planet

record war =
  impactMultiplier :: "jsnum option"

text \<open>One entry of the snapshot store: the time stamp \<^verbatim>\<open>Date.now()\<close> in milliseconds
  and the two objects keyed by planet index. Reading a key that was never written
  gives \<open>undefined\<close>.\<close>

record snapshot =
  ts :: int
  healthAt :: "int option \<Rightarrow> jsval"
  playersAt :: "int option \<Rightarrow> jsnum option"

text \<open>The object \<^verbatim>\<open>{ value, estimated }\<close> (the field \<open>rate\<close> is \<^verbatim>\<open>value\<close>, which
  the code compares with \<open>null\<close>), the object \<^verbatim>\<open>{ min, recommended, estimated? }\<close>, and
  a row of the checklist. The \<^verbatim>\<open>label\<close> of a row is one of five texts, kept as a
  constructor; the \<^verbatim>\<open>detail\<close> text is left out: it is only displayed, and it is built
  from the same numbers with \<^verbatim>\<open>toFixed\<close> and \<^verbatim>\<open>toLocaleString\<close>, which do not throw.\<close>

record netRateEstimate =
  rate :: "jsnum option"
  estimated :: bool

record playerRequirement =
  req_min :: jsnum
  req_recommended :: jsnum
  req_estimated :: "bool option"

datatype condLabel =
  LiberationProgress | NetRatePositive | CompletableWithin48h | EtaBeatsDefenseExpiry | PlayersAtMinimum

record condition =
  label :: condLabel
  pass :: bool

datatype riskLevel = OPTIMAL | FAVORABLE | VIABLE | RISKY | CRITICAL

text \<open>Results of the scout: \<^verbatim>\<open>{ planet, decayPctHr }\<close> (\<open>t_planet\<close> is the field
  \<^verbatim>\<open>planet\<close>; \<open>None\<close> is a \<open>null\<close> rate) and \<^verbatim>\<open>{ defenseCampaign, targets }\<close>.\<close>

record scoutTarget =
  t_planet :: planet
  t_decayPctHr :: "jsnum option"

record scoutResult =
  defenseCampaign :: campaign
  targets :: "scoutTarget list"

text \<open>A gambit (\<open>g_libPct\<close> is the field \<^verbatim>\<open>libPct\<close>).\<close>

record gambit =
  libCampaign :: campaign
  connectedDefenses :: "campaign list"
  connectedLiberation :: "campaign list"
  g_libPct :: jsnum
  netRateObj :: netRateEstimate
  netRate :: "jsnum option"
  timeToComplete :: "jsnum option"
  players :: jsnum
  playerReqs :: "playerRequirement option"
  conditions :: "condition list"
  successPct :: jsnum
  risk :: riskLevel

section \<open>Snapshot store and rates\<close>

text \<open>\<^verbatim>\<open>libPct\<close> of the application module.\<close>

definition libPct :: "planet \<Rightarrow> jsnum" where
  "libPct p =
     (if \<not> truthy (maxHealth p) then Fin 0
      else jmax (Fin 0) (jmin (Fin 100)
             (jmul (jsub (Fin 1) (jdiv (toNumber (health p)) (maxHealth p))) (Fin 100))))"

text \<open>\<^verbatim>\<open>recordSnapshot\<close>: the store is the module variable \<^verbatim>\<open>snapshots\<close>, passed in
  and returned; \<open>now\<close> is the reading of \<^verbatim>\<open>Date.now()\<close>. A later planet with the
  same index overwrites an earlier one.\<close>

definition snapshotEntry :: "int \<Rightarrow> planet list \<Rightarrow> snapshot" where
  "snapshotEntry now planets =
     fold (\<lambda>p e. e\<lparr> healthAt := (healthAt e)(index p := health p),
                   playersAt := (playersAt e)(index p :=
                      Some (case playerCount p of None \<Rightarrow> Fin 0 | Some c \<Rightarrow> c)) \<rparr>)
       planets
       \<lparr> ts = now, healthAt = (\<lambda>_. Undefined), playersAt = (\<lambda>_. None) \<rparr>"

definition recordSnapshot :: "int \<Rightarrow> planet list option \<Rightarrow> snapshot list \<Rightarrow> snapshot list" where
  "recordSnapshot now planets snapshots =
     (let entry = snapshotEntry now (case planets of None \<Rightarrow> [] | Some ps \<Rightarrow> ps);
          pushed = snapshots @ [entry]
      in if length pushed > 6 then tl pushed else pushed)"

text \<open>The entry that a call with clock reading \<open>fst c\<close> and argument \<open>snd c\<close> builds.\<close>

definition entryOf :: "int \<times> planet list option \<Rightarrow> snapshot" where
  "entryOf c = snapshotEntry (fst c) (case snd c of None \<Rightarrow> [] | Some ps \<Rightarrow> ps)"

text \<open>A sequence of calls of \<^verbatim>\<open>recordSnapshot\<close>, each with its clock reading and
  its argument, starting from the empty store the module is loaded with.\<close>

definition recordAll :: "(int \<times> planet list option) list \<Rightarrow> snapshot list" where
  "recordAll calls = fold (\<lambda>c store. recordSnapshot (fst c) (snd c) store) calls []"

text \<open>\<^verbatim>\<open>measuredNetRate\<close>: \<open>None\<close> is the result \<open>null\<close>.\<close>

definition measuredNetRate :: "snapshot list \<Rightarrow> int option \<Rightarrow> jsnum \<Rightarrow> jsnum option" where
  "measuredNetRate snapshots planetIndex maxHealth' =
     (if length snapshots < 2 then None
      else
        let latest = snapshots ! (length snapshots - 1);
            prev = snapshots ! (length snapshots - 2);
            latestHealth = healthAt latest planetIndex;
            prevHealth = healthAt prev planetIndex
        in if isNullish latestHealth \<or> isNullish prevHealth then None
           else
             let deltaHours = jdiv (Fin (of_int (ts latest - ts prev))) (Fin 3600000)
             in if jlt deltaHours (Fin (2 / 1000)) then None
                else
                  let deltaHealth = jsub (toNumber prevHealth) (toNumber latestHealth)
                  in Some (jdiv (jmul (jdiv deltaHealth maxHealth') (Fin 100)) deltaHours))"

text \<open>The decay rate expression
  \<^verbatim>\<open>(planet.regenPerSecond * 3600 / planet.maxHealth) * 100\<close>, which
  \<^verbatim>\<open>estimatedNetRate\<close>, \<^verbatim>\<open>calcPlayerRequirements\<close> and the scout each write out.\<close>

definition decayPctHr :: "planet \<Rightarrow> jsnum" where
  "decayPctHr p = jmul (jdiv (jmul (regenPerSecond p) (Fin 3600)) (maxHealth p)) (Fin 100)"

definition players_of :: "planet \<Rightarrow> jsnum" where
  "players_of p = (case playerCount p of None \<Rightarrow> Fin 0 | Some c \<Rightarrow> c)"

definition estimatedNetRate :: "planet \<Rightarrow> netRateEstimate" where
  "estimatedNetRate p =
     (let playerRatePctHr = jmul (jdiv (players_of p) (Fin 10000)) (Fin 1)
      in \<lparr> rate = Some (jsub playerRatePctHr (decayPctHr p)), estimated = True \<rparr>)"

section \<open>Requirements, conditions and score\<close>

text \<open>\<^verbatim>\<open>calcPlayerRequirements\<close>; it reads the snapshot store, and \<open>None\<close> is the
  result \<open>null\<close>. The third argument is \<open>None\<close> when it is \<open>null\<close> or missing.\<close>

definition calcPlayerRequirements ::
  "snapshot list \<Rightarrow> planet \<Rightarrow> netRateEstimate \<Rightarrow> jsnum option \<Rightarrow> playerRequirement option" where
  "calcPlayerRequirements snapshots p nro impactMultiplier' =
     (let decay = decayPctHr p;
          currentPlayers = players_of p
      in if length snapshots \<ge> 2 \<and> \<not> estimated nro then
           let latest = snapshots ! (length snapshots - 1);
               playerCount' = (case playersAt latest (index p) of
                                 None \<Rightarrow> currentPlayers | Some c \<Rightarrow> c)
           in if jlt playerCount' (Fin 10) then None
              else case rate nro of
                None \<Rightarrow> None
              | Some measured \<Rightarrow>
                  let grossPlayerPctHr = jadd measured decay
                  in if jle grossPlayerPctHr (Fin 0) then None
                     else
                       let ratePerPlayer = jdiv grossPlayerPctHr playerCount'
                       in if jle ratePerPlayer (Fin 0) then None
                          else
                            let mn = jmax (Fin 1) (jceil (jdiv decay ratePerPlayer));
                                remaining = jsub (Fin 100) (libPct p);
                                rec = jmax (jmul mn (Fin 2))
                                        (jceil (jdiv (jadd decay (jmul remaining (Fin (1 / 24))))
                                                  ratePerPlayer))
                            in Some \<lparr> req_min = mn, req_recommended = rec, req_estimated = None \<rparr>
         else
           let imp = (case impactMultiplier' of None \<Rightarrow> Fin (5 / 1000) | Some i \<Rightarrow> i)
           in if jle imp (Fin 0) then None
              else
                let mn = jceil (jdiv decay (jmul imp (Fin (25 / 100))))
                in Some \<lparr> req_min = mn, req_recommended = jmul mn (Fin 3),
                          req_estimated = Some True \<rparr>)"

text \<open>\<^verbatim>\<open>hoursLeft\<close> of the application module reads the clock; \<open>now\<close> is the reading
  of \<^verbatim>\<open>Date.now()\<close> and \<open>t\<close> the time stamp of the end time.\<close>

definition hoursLeft :: "int \<Rightarrow> jsnum \<Rightarrow> jsnum" where
  "hoursLeft now t = jdiv (jsub t (Fin (of_int now))) (Fin 3600000)"

text \<open>The expression
  \<^verbatim>\<open>Math.min(...connectedDefenses.map(dc => dc.planet.event?.endTime ? hoursLeft(dc.planet.event.endTime) : Infinity))\<close>
  of \<^verbatim>\<open>buildConditions\<close> and \<^verbatim>\<open>calcSuccessPct\<close>.\<close>

definition defHour :: "int \<Rightarrow> campaign \<Rightarrow> jsnum" where
  "defHour now dc =
     (case event (planet dc) of
        None \<Rightarrow> PInf
      | Some e \<Rightarrow> (case endTime e of None \<Rightarrow> PInf | Some t \<Rightarrow> hoursLeft now t))"

definition minDefHr :: "int \<Rightarrow> campaign list \<Rightarrow> jsnum" where
  "minDefHr now conn = jminList (map (defHour now) conn)"

definition buildConditions ::
  "int \<Rightarrow> campaign \<Rightarrow> netRateEstimate \<Rightarrow> jsnum option \<Rightarrow> campaign list \<Rightarrow>
   playerRequirement option \<Rightarrow> condition list" where
  "buildConditions now libCampaign' nro timeToComplete' conn playerReqs' =
     (let p = planet libCampaign';
          lib = libPct p;
          pl = players_of p;
          c1 = [\<lparr> label = LiberationProgress, pass = jge lib (Fin 25) \<rparr>];
          c2 = [\<lparr> label = NetRatePositive,
                  pass = (case rate nro of None \<Rightarrow> False | Some r \<Rightarrow> jgt r (Fin 0)) \<rparr>];
          c3 = [\<lparr> label = CompletableWithin48h,
                  pass = (case timeToComplete' of
                            None \<Rightarrow> False
                          | Some t \<Rightarrow> isFinite t \<and> jle t (Fin 48)) \<rparr>];
          c4 = (if length conn > 0 then
                  [\<lparr> label = EtaBeatsDefenseExpiry,
                     pass = (case timeToComplete' of
                               None \<Rightarrow> False
                             | Some t \<Rightarrow> isFinite t \<and> jlt t (minDefHr now conn)) \<rparr>]
                else []);
          c5 = (case playerReqs' of
                  None \<Rightarrow> []
                | Some r \<Rightarrow> [\<lparr> label = PlayersAtMinimum, pass = jge pl (req_min r) \<rparr>])
      in c1 @ c2 @ c3 @ c4 @ c5)"

text \<open>\<^verbatim>\<open>calcSuccessPct\<close>, one definition per component of the score.\<close>

definition progressScore :: "jsnum \<Rightarrow> jsnum" where
  "progressScore lib = jmul (jdiv (jmin lib (Fin 100)) (Fin 100)) (Fin 25)"

definition rateScore :: "jsnum option \<Rightarrow> jsnum" where
  "rateScore r =
     (case r of
        None \<Rightarrow> Fin 0
      | Some v \<Rightarrow>
          if jgt v (Fin 0) then jmul (jmin (jdiv v (Fin 5)) (Fin 1)) (Fin 30)
          else jmul (jmax (jdiv v (Fin 5)) (Fin (- 1))) (Fin 10))"

definition timeScore :: "int \<Rightarrow> jsnum option \<Rightarrow> campaign list \<Rightarrow> jsnum" where
  "timeScore now timeToComplete' conn =
     (case timeToComplete' of
        None \<Rightarrow> Fin 0
      | Some t \<Rightarrow>
          if isFinite t then
            if length conn > 0 then
              let m = minDefHr now conn
              in if jlt t m then jmul (jmin (jdiv (jsub m t) (Fin 12)) (Fin 1)) (Fin 25)
                 else Fin (- 15)
            else jmul (jmax (Fin 0) (jsub (Fin 1) (jdiv t (Fin 48)))) (Fin 25)
          else Fin 0)"

definition passScore :: "condition list \<Rightarrow> jsnum" where
  "passScore conds =
     (if length conds > 0 then
        jmul (jdiv (Fin (of_nat (length (filter pass conds)))) (Fin (of_nat (length conds))))
          (Fin 20)
      else Fin 0)"

definition calcSuccessPct ::
  "int \<Rightarrow> jsnum \<Rightarrow> jsnum option \<Rightarrow> jsnum option \<Rightarrow> campaign list \<Rightarrow> condition list \<Rightarrow> jsnum" where
  "calcSuccessPct now lib r t conn conds =
     (let score = jadd (jadd (jadd (jadd (Fin 0) (progressScore lib)) (rateScore r))
                    (timeScore now t conn)) (passScore conds)
      in jmax (Fin 0) (jmin (Fin 100) (jround score)))"

definition toRiskLevel :: "jsnum \<Rightarrow> riskLevel" where
  "toRiskLevel pct =
     (if jge pct (Fin 85) then OPTIMAL
      else if jge pct (Fin 70) then FAVORABLE
      else if jge pct (Fin 55) then VIABLE
      else if jge pct (Fin 35) then RISKY
      else CRITICAL)"

section \<open>Sorting\<close>

text \<open>
  \<^verbatim>\<open>Array.prototype.sort\<close> with a comparison function: a stable sort, here by insertion.
  The value of the comparison function decides only through \<^verbatim>\<open>> 0\<close>; \<open>NaN\<close>
  counts as \<open>0\<close>, as ECMAScript prescribes. For a consistent comparison function
  ECMAScript fixes the result (the stable sorted permutation); for an inconsistent one
  the order is implementation-defined and the insertion order below is one such order.
\<close>

fun insertBy :: "('a \<Rightarrow> 'a \<Rightarrow> jsnum) \<Rightarrow> 'a \<Rightarrow> 'a list \<Rightarrow> 'a list" where
  "insertBy cmp x [] = [x]"
| "insertBy cmp x (y # ys) =
     (if jgt (cmp x y) (Fin 0) then y # insertBy cmp x ys else x # y # ys)"

definition jsSort :: "('a \<Rightarrow> 'a \<Rightarrow> jsnum) \<Rightarrow> 'a list \<Rightarrow> 'a list" where
  "jsSort cmp xs = foldr (insertBy cmp) xs []"

section \<open>Gambit detection\<close>

text \<open>\<^verbatim>\<open>(ws ?? []).includes(i)\<close> on an array of planet indices, and the two-way test
  of a supply line that \<^verbatim>\<open>detectGambits\<close> writes out in its filters.\<close>

definition includesIndex :: "int list option \<Rightarrow> int option \<Rightarrow> bool" where
  "includesIndex ws i =
     (case i of
        None \<Rightarrow> False
      | Some k \<Rightarrow> k \<in> set (case ws of None \<Rightarrow> [] | Some l \<Rightarrow> l))"

definition linked :: "planet \<Rightarrow> planet \<Rightarrow> bool" where
  "linked p q = (includesIndex (waypoints p) (index q) \<or> includesIndex (waypoints q) (index p))"

text \<open>\<^verbatim>\<open>war?.impactMultiplier\<close> (\<open>None\<close> when \<open>war\<close> or the field is \<open>null\<close> or
  missing) and the constant \<^verbatim>\<open>imp = war?.impactMultiplier ?? 0.005\<close> of
  \<^verbatim>\<open>detectGambits\<close>.\<close>

definition impactOf :: "war option \<Rightarrow> jsnum option" where
  "impactOf w = (case w of None \<Rightarrow> None | Some w' \<Rightarrow> impactMultiplier w')"

definition warImpact :: "war option \<Rightarrow> jsnum" where
  "warImpact w = (case impactOf w of None \<Rightarrow> Fin (5 / 1000) | Some i \<Rightarrow> i)"

text \<open>The body of the loop of \<^verbatim>\<open>detectGambits\<close> for the campaign at position \<open>i\<close> of
  \<open>libs\<close>. The test \<^verbatim>\<open>lc === libCampaign\<close> compares objects, and the campaigns of an
  array are distinct objects, so the other campaigns are those at the other positions.\<close>

definition timeToCompleteOf :: "jsnum \<Rightarrow> jsnum option \<Rightarrow> jsnum option" where
  "timeToCompleteOf lib r =
     (case r of
        None \<Rightarrow> None
      | Some v \<Rightarrow> if jgt v (Fin 0) then Some (jdiv (jsub (Fin 100) lib) v) else None)"

definition analyse ::
  "int \<Rightarrow> snapshot list \<Rightarrow> campaign list \<Rightarrow> campaign list \<Rightarrow> jsnum \<Rightarrow> nat \<Rightarrow> gambit" where
  "analyse now snapshots libs defs imp i =
     (let lc = libs ! i;
          p = planet lc;
          lib = libPct p;
          conn = filter (\<lambda>dc. linked p (planet dc)) defs;
          connLib = filter (\<lambda>c. linked p (planet c)) (take i libs @ drop (Suc i) libs);
          nro = (case measuredNetRate snapshots (index p) (maxHealth p) of
                   Some m \<Rightarrow> \<lparr> rate = Some m, estimated = False \<rparr>
                 | None \<Rightarrow> estimatedNetRate p);
          r = rate nro;
          t = timeToCompleteOf lib r;
          reqs = calcPlayerRequirements snapshots p nro (Some imp);
          conds = buildConditions now lc nro t conn reqs;
          pct = calcSuccessPct now lib r t conn conds
      in \<lparr> libCampaign = lc, connectedDefenses = conn, connectedLiberation = connLib,
           g_libPct = lib, netRateObj = nro, netRate = r, timeToComplete = t,
           players = players_of p, playerReqs = reqs, conditions = conds,
           successPct = pct, risk = toRiskLevel pct \<rparr>)"

text \<open>The comparison function of the final sort.\<close>

definition hasDef :: "gambit \<Rightarrow> int" where
  "hasDef g = (if length (connectedDefenses g) > 0 then 1 else 0)"

definition gambitCmp :: "gambit \<Rightarrow> gambit \<Rightarrow> jsnum" where
  "gambitCmp a b =
     (if hasDef b \<noteq> hasDef a then Fin (of_int (hasDef b - hasDef a))
      else jsub (successPct b) (successPct a))"

text \<open>\<^verbatim>\<open>detectGambits\<close>: besides its three arguments it reads the clock (through
  \<^verbatim>\<open>hoursLeft\<close>) and the snapshot store.\<close>

definition detectGambits ::
  "int \<Rightarrow> snapshot list \<Rightarrow> campaign list \<Rightarrow> campaign list \<Rightarrow> war option \<Rightarrow> gambit list" where
  "detectGambits now snapshots libs defs w =
     jsSort gambitCmp (map (analyse now snapshots libs defs (warImpact w)) [0..<length libs])"

text \<open>
  The earlier revision of the module (it has no \<^verbatim>\<open>connectedLiberation\<close>, here the
  empty list, and sorts by score only). Its loop starts with
  \<^verbatim>\<open>if (libPct_ < 0 && connected.length === 0) continue;\<close> before the declaration
  \<^verbatim>\<open>const connected\<close>: when the left operand is true, reading \<^verbatim>\<open>connected\<close> throws a
  \<open>ReferenceError\<close>; when it is false the right operand is not evaluated.
\<close>

datatype jsError = ReferenceError

fun earlierLoop ::
  "int \<Rightarrow> snapshot list \<Rightarrow> campaign list \<Rightarrow> campaign list \<Rightarrow> jsnum \<Rightarrow> nat list \<Rightarrow>
   jsError + gambit list" where
  "earlierLoop now snapshots libs defs imp [] = Inr []"
| "earlierLoop now snapshots libs defs imp (i # rest) =
     (if jlt (libPct (planet (libs ! i))) (Fin 0) then Inl ReferenceError
      else case earlierLoop now snapshots libs defs imp rest of
        Inl e \<Rightarrow> Inl e
      | Inr gs \<Rightarrow> Inr ((analyse now snapshots libs defs imp i)\<lparr> connectedLiberation := [] \<rparr> # gs))"

definition scoreCmp :: "gambit \<Rightarrow> gambit \<Rightarrow> jsnum" where
  "scoreCmp a b = jsub (successPct b) (successPct a)"

definition detectGambitsEarlier ::
  "int \<Rightarrow> snapshot list \<Rightarrow> campaign list \<Rightarrow> campaign list \<Rightarrow> war option \<Rightarrow>
   jsError + gambit list" where
  "detectGambitsEarlier now snapshots libs defs w =
     (case earlierLoop now snapshots libs defs (warImpact w) [0..<length libs] of
        Inl e \<Rightarrow> Inl e
      | Inr gs \<Rightarrow> Inr (jsSort scoreCmp gs))"

text \<open>A defense campaign whose event carries no end time: \<^verbatim>\<open>hoursLeft\<close> is not called
  for it.\<close>

definition untimed :: "campaign \<Rightarrow> bool" where
  "untimed dc = (case event (planet dc) of None \<Rightarrow> True | Some e \<Rightarrow> endTime e = None)"

section \<open>Scout detection\<close>

text \<open>The elements of \<^verbatim>\<open>new Set(xs)\<close> in iteration order: first occurrences, in order.\<close>

fun setOrder :: "'a list \<Rightarrow> 'a list \<Rightarrow> 'a list" where
  "setOrder seen [] = []"
| "setOrder seen (x # xs) =
     (if x \<in> set seen then setOrder seen xs else x # setOrder (x # seen) xs)"

text \<open>\<^verbatim>\<open>toLowerCase\<close> on the ASCII letters (other characters are left as they are) and
  \<^verbatim>\<open>s.includes(t)\<close> on strings.\<close>

definition lowerChar :: "char \<Rightarrow> char" where
  "lowerChar c =
     (let n = (of_char c :: nat) in if 65 \<le> n \<and> n \<le> 90 then char_of (n + 32) else c)"

definition toLowerCase :: "string \<Rightarrow> string" where
  "toLowerCase s = map lowerChar s"

definition includesStr :: "string \<Rightarrow> string \<Rightarrow> bool" where
  "includesStr s t = sublist t s"

text \<open>The object \<^verbatim>\<open>planetByIndex\<close>: a later planet with the same index overwrites an
  earlier one, and a planet without index is not entered.\<close>

definition planetByIndex :: "planet list \<Rightarrow> int \<rightharpoonup> planet" where
  "planetByIndex allPlanets =
     fold (\<lambda>p m. case index p of None \<Rightarrow> m | Some k \<Rightarrow> m(k \<mapsto> p)) allPlanets Map.empty"

definition lookupPlanet :: "(int \<rightharpoonup> planet) \<Rightarrow> int option \<Rightarrow> planet option" where
  "lookupPlanet m idx = (case idx of None \<Rightarrow> None | Some k \<Rightarrow> m k)"

text \<open>The loop over \<^verbatim>\<open>connectedIndices\<close> that collects the targets.\<close>

fun collectTargets :: "int option list \<Rightarrow> (int \<rightharpoonup> planet) \<Rightarrow> int option list \<Rightarrow> scoutTarget list" where
  "collectTargets active byIndex [] = []"
| "collectTargets active byIndex (idx # rest) =
     (if idx \<in> set active then collectTargets active byIndex rest
      else case lookupPlanet byIndex idx of
        None \<Rightarrow> collectTargets active byIndex rest
      | Some p \<Rightarrow>
          let owner = toLowerCase (case currentOwner p of None \<Rightarrow> [] | Some s \<Rightarrow> s)
          in if owner = [] \<or> includesStr owner ''human'' then collectTargets active byIndex rest
             else \<lparr> t_planet = p,
                    t_decayPctHr = (if truthy (maxHealth p) then Some (decayPctHr p) else None) \<rparr>
                  # collectTargets active byIndex rest)"

definition orInfinity :: "jsnum option \<Rightarrow> jsnum" where
  "orInfinity v = (case v of None \<Rightarrow> PInf | Some x \<Rightarrow> x)"

definition targetCmp :: "scoutTarget \<Rightarrow> scoutTarget \<Rightarrow> jsnum" where
  "targetCmp a b = jsub (orInfinity (t_decayPctHr a)) (orInfinity (t_decayPctHr b))"

definition expiryStamp :: "scoutResult \<Rightarrow> jsnum" where
  "expiryStamp r =
     (case event (planet (defenseCampaign r)) of
        None \<Rightarrow> PInf
      | Some e \<Rightarrow> orInfinity (endTime e))"

definition resultCmp :: "scoutResult \<Rightarrow> scoutResult \<Rightarrow> jsnum" where
  "resultCmp a b = jsub (expiryStamp a) (expiryStamp b)"

definition connectedIndices :: "planet \<Rightarrow> planet list \<Rightarrow> int option list" where
  "connectedIndices defPlanet allPlanets =
     setOrder []
       (map Some (case waypoints defPlanet of None \<Rightarrow> [] | Some l \<Rightarrow> l) @
        map index (filter (\<lambda>p. includesIndex (waypoints p) (index defPlanet)) allPlanets))"

definition scoutTargetsOf :: "int option list \<Rightarrow> planet list \<Rightarrow> campaign \<Rightarrow> scoutTarget list" where
  "scoutTargetsOf active allPlanets dc =
     jsSort targetCmp
       (collectTargets active (planetByIndex allPlanets)
          (connectedIndices (planet dc) allPlanets))"

definition detectScoutTargets ::
  "campaign list \<Rightarrow> campaign list \<Rightarrow> planet list \<Rightarrow> scoutResult list" where
  "detectScoutTargets defs libs allPlanets =
     (let active = map (\<lambda>c. index (planet c)) libs @ map (\<lambda>c. index (planet c)) defs;
          results = concat (map (\<lambda>dc.
                        let tg = scoutTargetsOf active allPlanets dc
                        in if length tg > 0 then [\<lparr> defenseCampaign = dc, targets = tg \<rparr>] else [])
                      defs)
      in jsSort resultCmp results)"

section \<open>Example inputs\<close>

text \<open>A planet half liberated, with the regeneration, health and player count of the
  example in the specification, and a store of two snapshots one minute apart.\<close>

definition examplePlanet :: planet where
  "examplePlanet =
     \<lparr> index = Some 1, health = Num (Fin 500000), maxHealth = Fin 1000000,
       regenPerSecond = Fin (1 / 1000), playerCount = Some (Fin 20000),
       currentOwner = None, waypoints = None, event = None \<rparr>"

definition exampleStore :: "snapshot list" where
  "exampleStore =
     [\<lparr> ts = 0, healthAt = (\<lambda>_. Undefined)(Some 1 := Num (Fin 500000)),
        playersAt = (\<lambda>_. None) \<rparr>,
      \<lparr> ts = 60000, healthAt = (\<lambda>_. Undefined)(Some 1 := Num (Fin 499000)),
        playersAt = (\<lambda>_. None) \<rparr>]"

text \<open>A planet without progress, a planet whose \<open>maxHealth\<close> and \<open>regenPerSecond\<close> are
  0, a planet whose health values both overflowed to \<open>Infinity\<close>, a half liberated
  planet nobody plays on, and a defended planet whose supply lines
  reach the planets 1 and 3 and whose defense ends 30 hours after time 0.\<close>

definition zeroPlanet :: planet where
  "zeroPlanet =
     \<lparr> index = Some 3, health = Num (Fin 1000000), maxHealth = Fin 1000000,
       regenPerSecond = Fin 0, playerCount = None,
       currentOwner = None, waypoints = None, event = None \<rparr>"

definition brokenPlanet :: planet where
  "brokenPlanet =
     \<lparr> index = Some 4, health = Num (Fin 0), maxHealth = Fin 0,
       regenPerSecond = Fin 0, playerCount = None,
       currentOwner = None, waypoints = None, event = None \<rparr>"

definition overflowPlanet :: planet where
  "overflowPlanet =
     \<lparr> index = Some 10, health = Num PInf, maxHealth = PInf,
       regenPerSecond = Fin 0, playerCount = None,
       currentOwner = None, waypoints = None, event = None \<rparr>"

definition halfPlanet :: planet where
  "halfPlanet =
     \<lparr> index = Some 5, health = Num (Fin 500000), maxHealth = Fin 1000000,
       regenPerSecond = Fin 0, playerCount = None,
       currentOwner = None, waypoints = None, event = None \<rparr>"

definition defendedPlanet :: planet where
  "defendedPlanet =
     \<lparr> index = Some 2, health = Num (Fin 1000000), maxHealth = Fin 1000000,
       regenPerSecond = Fin 0, playerCount = None,
       currentOwner = None, waypoints = Some [1, 3],
       event = Some \<lparr> endTime = Some (Fin 108000000) \<rparr> \<rparr>"

text \<open>A defended planet whose event carries no end time, a defended planet far from
  the others, and two planets next to planet 2: one held by the enemy, one by the
  players.\<close>

definition openEndedPlanet :: planet where
  "openEndedPlanet =
     \<lparr> index = Some 6, health = Num (Fin 1000000), maxHealth = Fin 1000000,
       regenPerSecond = Fin 0, playerCount = None,
       currentOwner = None, waypoints = Some [1], event = Some \<lparr> endTime = None \<rparr> \<rparr>"

definition farPlanet :: planet where
  "farPlanet =
     \<lparr> index = Some 9, health = Num (Fin 1000000), maxHealth = Fin 1000000,
       regenPerSecond = Fin 0, playerCount = None,
       currentOwner = None, waypoints = None,
       event = Some \<lparr> endTime = Some (Fin 108000000) \<rparr> \<rparr>"

definition enemyPlanet :: planet where
  "enemyPlanet =
     \<lparr> index = Some 7, health = Num (Fin 1000000), maxHealth = Fin 1000000,
       regenPerSecond = Fin (1 / 1000), playerCount = None,
       currentOwner = Some ''Automaton'', waypoints = Some [2], event = None \<rparr>"

definition friendlyPlanet :: planet where
  "friendlyPlanet =
     \<lparr> index = Some 8, health = Num (Fin 1000000), maxHealth = Fin 1000000,
       regenPerSecond = Fin 0, playerCount = None,
       currentOwner = Some ''Humans'', waypoints = Some [2], event = None \<rparr>"

section \<open>Theorems\<close>

subsection \<open>Facts about numbers\<close>

lemma jmul_one [simp]: "jmul x (Fin 1) = x"
  by (cases x) auto

lemma jadd_zero [simp]: "jadd (Fin 0) x = x"
  by (cases x) auto

lemma jleq_iff: "jleq a b \<longleftrightarrow> a = b \<or> jlt a b"
  by (cases a; cases b) (auto simp: jleq_def jle_def)

lemma isFinite_Fin: "isFinite v \<Longrightarrow> \<exists>x. v = Fin x"
  by (cases v) auto

lemma jadd_not_PInf: "a \<noteq> PInf \<Longrightarrow> b \<noteq> PInf \<Longrightarrow> jadd a b \<noteq> PInf"
  by (cases a; cases b) auto

lemma jadd_mono_left:
  "jleq a b \<Longrightarrow> b \<noteq> PInf \<Longrightarrow> c \<noteq> PInf \<Longrightarrow> jleq (jadd a c) (jadd b c)"
  by (cases a; cases b; cases c) (auto simp: jleq_def jle_def)

lemma jadd_mono_right:
  "jleq a b \<Longrightarrow> b \<noteq> PInf \<Longrightarrow> c \<noteq> PInf \<Longrightarrow> jleq (jadd c a) (jadd c b)"
  by (cases a; cases b; cases c) (auto simp: jleq_def jle_def)

lemma jround_mono: "jleq a b \<Longrightarrow> jleq (jround a) (jround b)"
proof (cases a; cases b)
  fix x y
  assume "jleq a b" "a = Fin x" "b = Fin y"
  then have "x \<le> y"
    by (auto simp: jleq_def jle_def)
  then have "\<lfloor>x + 1 / 2\<rfloor> \<le> \<lfloor>y + 1 / 2\<rfloor>"
    by (intro floor_mono) simp
  then show "jleq (jround a) (jround b)"
    using \<open>a = Fin x\<close> \<open>b = Fin y\<close> by (auto simp: jleq_def jle_def)
qed (auto simp: jleq_def jle_def)

lemma jmin_mono: "jleq a b \<Longrightarrow> jleq (jmin (Fin c) a) (jmin (Fin c) b)"
  by (cases a; cases b) (auto simp: jleq_def jle_def jmin_def)

lemma jmax_mono: "jleq a b \<Longrightarrow> jleq (jmax (Fin c) a) (jmax (Fin c) b)"
  by (cases a; cases b) (auto simp: jleq_def jle_def jmax_def)

text \<open>Clamping a rounded number gives an integer from 0 to 100, or \<open>NaN\<close> when the
  number is \<open>NaN\<close>.\<close>

lemma clamp_round_range:
  "jmax (Fin 0) (jmin (Fin 100) (jround s)) = NaN \<or>
   (\<exists>k::int. 0 \<le> k \<and> k \<le> 100 \<and> jmax (Fin 0) (jmin (Fin 100) (jround s)) = Fin (of_int k))"
proof (cases s)
  case (Fin x)
  define k where "k = \<lfloor>x + 1 / 2\<rfloor>"
  have "jround s = Fin (of_int k)"
    by (simp add: Fin k_def)
  then have "jmax (Fin 0) (jmin (Fin 100) (jround s)) = Fin (of_int (max 0 (min 100 k)))"
    by (auto simp: jmax_def jmin_def max_def min_def)
  moreover have "0 \<le> max 0 (min 100 k) \<and> max 0 (min 100 k) \<le> 100"
    by simp
  ultimately show ?thesis by blast
next
  case NaN
  then show ?thesis by (simp add: jmax_def jmin_def)
next
  case NInf
  then have "jmax (Fin 0) (jmin (Fin 100) (jround s)) = Fin (of_int 0)"
    by (simp add: jmax_def jmin_def)
  then show ?thesis by (metis order_refl zero_le_numeral)
next
  case PInf
  then have "jmax (Fin 0) (jmin (Fin 100) (jround s)) = Fin (of_int 100)"
    by (simp add: jmax_def jmin_def)
  then show ?thesis by (metis order_refl zero_le_numeral)
qed

lemma clamp_round_NaN_iff: "jmax (Fin 0) (jmin (Fin 100) (jround s)) = NaN \<longleftrightarrow> s = NaN"
  by (cases s) (auto simp: jmax_def jmin_def)

subsection \<open>The sort returns a permutation\<close>

lemma mset_insertBy: "mset (insertBy cmp x xs) = add_mset x (mset xs)"
  by (induction xs) auto

lemma mset_jsSort: "mset (jsSort cmp xs) = mset xs"
  unfolding jsSort_def by (induction xs) (auto simp: mset_insertBy)

lemma set_jsSort: "set (jsSort cmp xs) = set xs"
  by (metis mset_jsSort set_mset_mset)

lemma length_jsSort: "length (jsSort cmp xs) = length xs"
  by (metis mset_jsSort size_mset)

lemma set_insertBy: "set (insertBy cmp x xs) = insert x (set xs)"
  by (metis mset_insertBy set_mset_add_mset_insert set_mset_mset)

text \<open>The sort orders by any transitive relation that agrees with the comparison
  function on the elements of the array.\<close>

lemma sorted_wrt_insertBy:
  assumes tr: "\<And>a b c. R a b \<Longrightarrow> R b c \<Longrightarrow> R a c"
    and before: "\<And>y. y \<in> set ys \<Longrightarrow> \<not> jgt (cmp x y) (Fin 0) \<Longrightarrow> R x y"
    and after: "\<And>y. y \<in> set ys \<Longrightarrow> jgt (cmp x y) (Fin 0) \<Longrightarrow> R y x"
    and sorted: "sorted_wrt R ys"
  shows "sorted_wrt R (insertBy cmp x ys)"
  using before after sorted
proof (induction ys)
  case Nil
  then show ?case by simp
next
  case (Cons y ys)
  show ?case
  proof (cases "jgt (cmp x y) (Fin 0)")
    case True
    have "sorted_wrt R (insertBy cmp x ys)"
      using Cons.prems by (intro Cons.IH) auto
    moreover have "\<forall>z \<in> set (insertBy cmp x ys). R y z"
      using Cons.prems True by (auto simp: set_insertBy)
    ultimately show ?thesis
      using True by simp
  next
    case False
    then have xy: "R x y"
      using Cons.prems by simp
    have "\<forall>z \<in> set ys. R x z"
      using xy Cons.prems(3) tr by auto
    then show ?thesis
      using False xy Cons.prems(3) by simp
  qed
qed

lemma sorted_wrt_jsSort:
  assumes tr: "\<And>a b c. R a b \<Longrightarrow> R b c \<Longrightarrow> R a c"
    and before: "\<And>x y. x \<in> set xs \<Longrightarrow> y \<in> set xs \<Longrightarrow> \<not> jgt (cmp x y) (Fin 0) \<Longrightarrow> R x y"
    and after: "\<And>x y. x \<in> set xs \<Longrightarrow> y \<in> set xs \<Longrightarrow> jgt (cmp x y) (Fin 0) \<Longrightarrow> R y x"
  shows "sorted_wrt R (jsSort cmp xs)"
  using before after
proof (induction xs)
  case Nil
  then show ?case by (simp add: jsSort_def)
next
  case (Cons x xs)
  have s: "sorted_wrt R (jsSort cmp xs)"
    using Cons.prems by (intro Cons.IH) auto
  have "sorted_wrt R (insertBy cmp x (jsSort cmp xs))"
    using Cons.prems by (intro sorted_wrt_insertBy [of R] s) (auto simp: set_jsSort intro: tr)
  then show ?case by (simp add: jsSort_def)
qed

subsection \<open>The snapshot store is bounded\<close>

lemma recordSnapshot_full:
  "length store = 6 \<Longrightarrow> recordSnapshot now ps store = tl store @ [entryOf (now, ps)]"
  by (cases store) (simp_all add: recordSnapshot_def Let_def entryOf_def)

lemma recordSnapshot_room:
  "length store < 6 \<Longrightarrow> recordSnapshot now ps store = store @ [entryOf (now, ps)]"
  by (simp add: recordSnapshot_def Let_def entryOf_def)

lemma recordSnapshot_drop:
  "length store \<le> 6 \<Longrightarrow>
   recordSnapshot now ps store = drop (length store + 1 - 6) (store @ [entryOf (now, ps)])"
proof (cases "length store = 6")
  case True
  then have "store \<noteq> []" by auto
  then show ?thesis
    using True by (simp add: recordSnapshot_full drop_Suc tl_append2 flip: drop_Suc [of 0, simplified])
next
  case False
  assume "length store \<le> 6"
  with False have "length store < 6" by simp
  then show ?thesis by (simp add: recordSnapshot_room)
qed

lemma recordSnapshot_length:
  "length store \<le> 6 \<Longrightarrow> length (recordSnapshot now ps store) \<le> 6"
  by (auto simp: recordSnapshot_def Let_def)

text \<open>Whatever the store holds when a run of calls starts, it afterwards holds the last
  six of the old entries followed by the new ones.\<close>

lemma fold_record_drop:
  "length store \<le> 6 \<Longrightarrow>
   fold (\<lambda>c s. recordSnapshot (fst c) (snd c) s) calls store =
     drop (length store + length calls - 6) (store @ map entryOf calls)"
proof (induction calls arbitrary: store)
  case Nil
  then show ?case by simp
next
  case (Cons c calls)
  define s where "s = recordSnapshot (fst c) (snd c) store"
  define m where "m = length store + 1 - 6"
  have l: "length s \<le> 6"
    unfolding s_def using Cons.prems by (rule recordSnapshot_length)
  have s: "s = drop m (store @ [entryOf c])"
    unfolding s_def m_def using Cons.prems recordSnapshot_drop [of store "fst c" "snd c"] by simp
  have len: "length s = length store + 1 - m"
    by (simp add: s)
  have idx: "length s + length calls - 6 + m = length store + length (c # calls) - 6"
    using Cons.prems len unfolding m_def by simp
  have m_le: "m \<le> length store"
    unfolding m_def by simp
  have app: "s @ map entryOf calls = drop m (store @ map entryOf (c # calls))"
    using m_le by (simp add: s)
  have "fold (\<lambda>c s. recordSnapshot (fst c) (snd c) s) (c # calls) store =
        drop (length s + length calls - 6) (s @ map entryOf calls)"
    using Cons.IH [OF l] by (simp add: s_def)
  also have "\<dots> = drop (length s + length calls - 6 + m) (store @ map entryOf (c # calls))"
    by (simp only: app drop_drop)
  finally show ?case by (simp only: idx)
qed

text \<open>
  Claim C6. The snapshot store never holds more than 6 entries: after any sequence of
  \<^verbatim>\<open>recordSnapshot\<close> calls its length is at most 6 and it holds the entries of the
  (at most) six most recent calls in capture order; and recording into a store of six
  removes exactly the oldest entry and appends the new one.
\<close>

theorem snapshot_store_bounded:
  "length (recordAll calls) \<le> 6 \<and>
   recordAll calls = drop (length calls - 6) (map entryOf calls) \<and>
   (length store = 6 \<longrightarrow> recordSnapshot now ps store = tl store @ [entryOf (now, ps)])"
  using fold_record_drop [of "[]" calls] by (simp add: recordAll_def recordSnapshot_full)

theorem snapshot_store_bounded_witness:
  "length (recordAll [(1, None), (2, None), (3, None), (4, None), (5, None), (6, None)]) = 6 \<and>
   map ts (recordSnapshot 7 None
        (recordAll [(1, None), (2, None), (3, None), (4, None), (5, None), (6, None)]))
     = [2, 3, 4, 5, 6, 7]"
proof -
  let ?calls = "[(1, None), (2, None), (3, None), (4, None), (5, None), (6, None)]
                  :: (int \<times> planet list option) list"
  note inst = snapshot_store_bounded [of ?calls "recordAll ?calls" 7 None]
  from inst have store: "recordAll ?calls = map entryOf ?calls"
    by simp
  then have len: "length (recordAll ?calls) = 6"
    by simp
  with inst have "recordSnapshot 7 None (recordAll ?calls) = tl (recordAll ?calls) @ [entryOf (7, None)]"
    by blast
  then have "map ts (recordSnapshot 7 None (recordAll ?calls)) = [2, 3, 4, 5, 6, 7]"
    by (simp add: store entryOf_def snapshotEntry_def)
  with len show ?thesis by simp
qed

subsection \<open>Measured and estimated rates\<close>

lemma short_interval: "(real_of_int d / 3600000 < 2 / 1000) = (d < 7200)"
proof -
  have "(real_of_int d / 3600000 < 2 / 1000) = (real_of_int d < real_of_int 7200)"
    by (simp add: field_simps)
  also have "\<dots> = (d < 7200)"
    by (simp only: of_int_less_iff)
  finally show ?thesis .
qed

lemma measuredNetRate_unfold:
  assumes "\<not> length snaps < 2"
  shows "measuredNetRate snaps idx mh =
     (if isNullish (healthAt (last snaps) idx) \<or>
         isNullish (healthAt (snaps ! (length snaps - 2)) idx) \<or>
         real_of_int (ts (last snaps) - ts (snaps ! (length snaps - 2))) / 3600000 < 2 / 1000
      then None
      else Some (jdiv (jmul (jdiv (jsub (toNumber (healthAt (snaps ! (length snaps - 2)) idx))
                                    (toNumber (healthAt (last snaps) idx))) mh) (Fin 100))
                (Fin (of_int (ts (last snaps) - ts (snaps ! (length snaps - 2))) / 3600000))))"
proof -
  from assms have "snaps \<noteq> []" by auto
  then have l: "snaps ! (length snaps - 1) = last snaps"
    by (simp add: last_conv_nth)
  show ?thesis
    unfolding measuredNetRate_def Let_def l using assms
    by (simp del: of_int_diff)
qed

text \<open>
  Claim C7. \<^verbatim>\<open>measuredNetRate(planetIndex, maxHealth)\<close> returns \<open>null\<close> exactly when
  fewer than 2 snapshots are stored, or one of the two most recent snapshots has no
  health entry for the planet, or the two are less than 7200 milliseconds (7.2 seconds,
  0.002 hours) apart; in every other case it returns
  \<open>((previousHealth - latestHealth) / maxHealth) * 100 / elapsedHours\<close>.
\<close>

theorem measuredNetRate_no_data_iff:
  "(measuredNetRate snaps idx mh = None \<longleftrightarrow>
      length snaps < 2 \<or>
      isNullish (healthAt (last snaps) idx) \<or>
      isNullish (healthAt (snaps ! (length snaps - 2)) idx) \<or>
      ts (last snaps) - ts (snaps ! (length snaps - 2)) < 7200) \<and>
   (measuredNetRate snaps idx mh \<noteq> None \<longrightarrow>
      measuredNetRate snaps idx mh =
        Some (jdiv (jmul (jdiv (jsub (toNumber (healthAt (snaps ! (length snaps - 2)) idx))
                                    (toNumber (healthAt (last snaps) idx))) mh) (Fin 100))
                (Fin (of_int (ts (last snaps) - ts (snaps ! (length snaps - 2))) / 3600000))))"
proof (cases "length snaps < 2")
  case True
  then show ?thesis by (simp add: measuredNetRate_def)
next
  case False
  show ?thesis
    unfolding measuredNetRate_unfold [OF False] short_interval using False by simp
qed

theorem measuredNetRate_no_data_iff_witness:
  "measuredNetRate exampleStore (Some 1) (Fin 1000000) = Some (Fin 6) \<and>
   measuredNetRate exampleStore (Some 2) (Fin 1000000) = None \<and>
   measuredNetRate (tl exampleStore) (Some 1) (Fin 1000000) = None"
proof -
  have 1: "measuredNetRate exampleStore (Some 1) (Fin 1000000) = Some (Fin 6)"
    using measuredNetRate_no_data_iff [of exampleStore "Some 1" "Fin 1000000"]
    by (simp add: exampleStore_def jsub_def)
  have 2: "measuredNetRate exampleStore (Some 2) (Fin 1000000) = None"
    using measuredNetRate_no_data_iff [of exampleStore "Some 2" "Fin 1000000"]
    by (simp add: exampleStore_def)
  have 3: "measuredNetRate (tl exampleStore) (Some 1) (Fin 1000000) = None"
    using measuredNetRate_no_data_iff [of "tl exampleStore" "Some 1" "Fin 1000000"]
    by (simp add: exampleStore_def)
  from 1 2 3 show ?thesis by simp
qed

text \<open>
  Claim C2, as stated, gives for \<open>regenPerSecond = 0.001\<close>, \<open>maxHealth = 1000000\<close> and
  \<open>playerCount = 20000\<close> a decay rate of 0.36 and a net value of 1.64. The formula
  gives neither.
\<close>

theorem estimatedNetRate_example_counterexample:
  "decayPctHr examplePlanet \<noteq> Fin (36 / 100) \<and>
   rate (estimatedNetRate examplePlanet) \<noteq> Some (Fin (164 / 100))"
  by (simp add: estimatedNetRate_def decayPctHr_def examplePlanet_def players_of_def jsub_def)

text \<open>
  Claim C2, amended. \<^verbatim>\<open>estimatedNetRate(planet)\<close> depends on the planet only and returns
  \<open>{ value: playerRate - decayRate, estimated: true }\<close> with
  \<open>decayRate = (regenPerSecond * 3600 / maxHealth) * 100\<close> and
  \<open>playerRate = playerCount / 10000\<close>; for \<open>regenPerSecond = 0.001\<close>,
  \<open>maxHealth = 1000000\<close> and \<open>playerCount = 20000\<close> the decay rate is 0.00036, the
  player rate 2.0 and the net value 1.99964.
\<close>

theorem estimatedNetRate_formula:
  "estimatedNetRate p =
     \<lparr> rate = Some (jsub (jdiv (players_of p) (Fin 10000))
                       (jmul (jdiv (jmul (regenPerSecond p) (Fin 3600)) (maxHealth p)) (Fin 100))),
       estimated = True \<rparr> \<and>
   (regenPerSecond p = Fin (1 / 1000) \<and> maxHealth p = Fin 1000000 \<and>
    playerCount p = Some (Fin 20000) \<longrightarrow>
      decayPctHr p = Fin (36 / 100000) \<and>
      jdiv (players_of p) (Fin 10000) = Fin 2 \<and>
      estimatedNetRate p = \<lparr> rate = Some (Fin (199964 / 100000)), estimated = True \<rparr>)"
  by (simp add: estimatedNetRate_def decayPctHr_def players_of_def jsub_def)

theorem estimatedNetRate_formula_witness:
  "regenPerSecond examplePlanet = Fin (1 / 1000) \<and> maxHealth examplePlanet = Fin 1000000 \<and>
   playerCount examplePlanet = Some (Fin 20000) \<and>
   estimatedNetRate examplePlanet = \<lparr> rate = Some (Fin (199964 / 100000)), estimated = True \<rparr>"
proof -
  have h: "regenPerSecond examplePlanet = Fin (1 / 1000) \<and> maxHealth examplePlanet = Fin 1000000 \<and>
           playerCount examplePlanet = Some (Fin 20000)"
    by (simp add: examplePlanet_def)
  with estimatedNetRate_formula [of examplePlanet] show ?thesis
    by blast
qed

subsection \<open>The impact multiplier and the fallback requirement\<close>

lemma fallback_result:
  assumes "\<not> (length snapshots \<ge> 2 \<and> \<not> estimated nro)"
  shows "calcPlayerRequirements snapshots p nro (Some imp) =
     (if jle imp (Fin 0) then None
      else Some \<lparr> req_min = jceil (jdiv (decayPctHr p) (jmul imp (Fin (25 / 100)))),
                  req_recommended =
                    jmul (jceil (jdiv (decayPctHr p) (jmul imp (Fin (25 / 100))))) (Fin 3),
                  req_estimated = Some True \<rparr>)"
proof -
  from assms have c: "(length snapshots \<ge> 2 \<and> \<not> estimated nro) = False"
    by simp
  show ?thesis
    unfolding calcPlayerRequirements_def Let_def c by simp
qed

text \<open>
  Claim C4, as stated, has the default 0.005 replace a non-positive
  \<^verbatim>\<open>war.impactMultiplier\<close>. With the multiplier 0 the constant \<open>imp\<close> of
  \<^verbatim>\<open>detectGambits\<close> is 0, and the fallback path of \<^verbatim>\<open>calcPlayerRequirements\<close>
  returns \<open>null\<close>.
\<close>

theorem impact_default_counterexample:
  "impactOf (Some \<lparr> impactMultiplier = Some (Fin 0) \<rparr>) = Some (Fin 0) \<and>
   warImpact (Some \<lparr> impactMultiplier = Some (Fin 0) \<rparr>) \<noteq> Fin (5 / 1000) \<and>
   calcPlayerRequirements [] examplePlanet (estimatedNetRate examplePlanet)
      (Some (warImpact (Some \<lparr> impactMultiplier = Some (Fin 0) \<rparr>))) = None"
  by (simp add: warImpact_def impactOf_def calcPlayerRequirements_def jle_def estimatedNetRate_def)

text \<open>
  Claim C4, amended. In the fallback path (fewer than 2 snapshots, or an estimated rate):
  when \<^verbatim>\<open>war.impactMultiplier\<close> is absent, 0.005 is used in its place and
  \<^verbatim>\<open>calcPlayerRequirements\<close> returns \<open>min = ceil(decayRate / (0.005 * 0.25))\<close>,
  \<open>recommended = min * 3\<close>, \<open>estimated = true\<close>; when it is present and not positive,
  it is used as it is and the result is absent.
\<close>

theorem impact_default_fallback:
  assumes fallback: "\<not> (length snapshots \<ge> 2 \<and> \<not> estimated nro)"
  shows "(impactOf w = None \<longrightarrow>
           warImpact w = Fin (5 / 1000) \<and>
           calcPlayerRequirements snapshots p nro (Some (warImpact w)) =
             Some \<lparr> req_min = jceil (jdiv (decayPctHr p) (Fin (5 / 1000 * (25 / 100)))),
                    req_recommended =
                      jmul (jceil (jdiv (decayPctHr p) (Fin (5 / 1000 * (25 / 100))))) (Fin 3),
                    req_estimated = Some True \<rparr>) \<and>
         (\<forall>i. impactOf w = Some i \<and> jle i (Fin 0) \<longrightarrow>
           warImpact w = i \<and>
           calcPlayerRequirements snapshots p nro (Some (warImpact w)) = None)"
proof -
  have a: "warImpact w = Fin (5 / 1000)" if "impactOf w = None"
    using that by (simp add: warImpact_def)
  have b: "warImpact w = i" if "impactOf w = Some i" for i
    using that by (simp add: warImpact_def)
  have pos: "\<not> jle (Fin (5 / 1000)) (Fin 0)"
    by (simp add: jle_def)
  show ?thesis
    using a b pos by (auto simp add: fallback_result [OF fallback])
qed

theorem impact_default_fallback_witness:
  "calcPlayerRequirements [] examplePlanet (estimatedNetRate examplePlanet) (Some (warImpact None)) =
     Some \<lparr> req_min = Fin 1, req_recommended = Fin 3, req_estimated = Some True \<rparr> \<and>
   calcPlayerRequirements [] examplePlanet (estimatedNetRate examplePlanet)
       (Some (warImpact (Some \<lparr> impactMultiplier = Some (Fin (- 1)) \<rparr>))) = None"
proof -
  have fb: "\<not> (length ([] :: snapshot list) \<ge> 2 \<and> \<not> estimated (estimatedNetRate examplePlanet))"
    by simp
  have absent: "impactOf None = None"
    by (simp add: impactOf_def)
  have present: "impactOf (Some \<lparr> impactMultiplier = Some (Fin (- 1)) \<rparr>) = Some (Fin (- 1)) \<and>
                 jle (Fin (- 1)) (Fin 0)"
    by (simp add: impactOf_def jle_def)
  have m: "jceil (jdiv (decayPctHr examplePlanet) (Fin (5 / 1000 * (25 / 100)))) = Fin 1"
    by (simp add: decayPctHr_def examplePlanet_def ceiling_eq_iff)
  from impact_default_fallback [OF fb, of None examplePlanet] absent
  have "calcPlayerRequirements [] examplePlanet (estimatedNetRate examplePlanet)
          (Some (warImpact None)) =
          Some \<lparr> req_min = jceil (jdiv (decayPctHr examplePlanet) (Fin (5 / 1000 * (25 / 100)))),
                 req_recommended =
                   jmul (jceil (jdiv (decayPctHr examplePlanet) (Fin (5 / 1000 * (25 / 100)))))
                     (Fin 3),
                 req_estimated = Some True \<rparr>"
    by blast
  then have 1: "calcPlayerRequirements [] examplePlanet (estimatedNetRate examplePlanet)
                  (Some (warImpact None)) =
     Some \<lparr> req_min = Fin 1, req_recommended = Fin 3, req_estimated = Some True \<rparr>"
    by (simp only: m jmul.simps) simp
  from impact_default_fallback
         [OF fb, of "Some \<lparr> impactMultiplier = Some (Fin (- 1)) \<rparr>" examplePlanet] present
  have 2: "calcPlayerRequirements [] examplePlanet (estimatedNetRate examplePlanet)
       (Some (warImpact (Some \<lparr> impactMultiplier = Some (Fin (- 1)) \<rparr>))) = None"
    by blast
  from 1 2 show ?thesis by (rule conjI)
qed

subsection \<open>Every liberation campaign yields a gambit\<close>

lemma libCampaign_analyse: "libCampaign (analyse now snaps libs defs imp i) = libs ! i"
  by (simp add: analyse_def Let_def)

lemma connectedDefenses_analyse:
  "connectedDefenses (analyse now snaps libs defs imp i) =
     filter (\<lambda>dc. linked (planet (libs ! i)) (planet dc)) defs"
  by (simp add: analyse_def Let_def)

lemma g_libPct_analyse:
  "g_libPct (analyse now snaps libs defs imp i) = libPct (planet (libs ! i))"
  by (simp add: analyse_def Let_def)

lemma campaigns_detectGambits:
  "mset (map libCampaign (detectGambits now snaps libs defs w)) = mset libs"
proof -
  have "mset (map libCampaign (detectGambits now snaps libs defs w)) =
        image_mset libCampaign
          (mset (map (analyse now snaps libs defs (warImpact w)) [0..<length libs]))"
    by (simp add: detectGambits_def mset_jsSort)
  also have "\<dots> = mset (map (\<lambda>i. libs ! i) [0..<length libs])"
    by (simp add: libCampaign_analyse comp_def flip: mset_map)
  also have "\<dots> = mset libs"
    by (simp add: map_nth)
  finally show ?thesis .
qed

lemma analyse_in_detectGambits:
  "i < length libs \<Longrightarrow>
   analyse now snaps libs defs (warImpact w) i \<in> set (detectGambits now snaps libs defs w)"
  by (simp add: detectGambits_def set_jsSort)

text \<open>
  Claim C1, as stated, has a liberation campaign with zero progress and no connected
  defense campaign excluded from the list. The planet below has zero progress, there is
  no defense campaign at all, and the list holds its campaign.
\<close>

theorem zero_progress_counterexample:
  "libPct zeroPlanet = Fin 0 \<and>
   map libCampaign (detectGambits 0 [] [\<lparr> planet = zeroPlanet \<rparr>] [] None) =
     [\<lparr> planet = zeroPlanet \<rparr>]"
  by code_simp

text \<open>
  Claim C1, amended. \<^verbatim>\<open>detectGambits\<close> returns one gambit for every liberation
  campaign, with its liberation percentage and its connected defense campaigns; a
  campaign with zero progress yields a gambit entry whether or not a defense campaign
  is connected to it.
\<close>

theorem detectGambits_excludes_nothing:
  "mset (map libCampaign (detectGambits now snaps libs defs w)) = mset libs \<and>
   (\<forall>i < length libs. \<exists>g \<in> set (detectGambits now snaps libs defs w).
       libCampaign g = libs ! i \<and>
       g_libPct g = libPct (planet (libs ! i)) \<and>
       connectedDefenses g = filter (\<lambda>dc. linked (planet (libs ! i)) (planet dc)) defs)"
  using campaigns_detectGambits analyse_in_detectGambits libCampaign_analyse
    connectedDefenses_analyse g_libPct_analyse
  by metis

theorem detectGambits_excludes_nothing_witness:
  "(\<exists>g \<in> set (detectGambits 0 [] [\<lparr> planet = zeroPlanet \<rparr>, \<lparr> planet = brokenPlanet \<rparr>]
                 [\<lparr> planet = defendedPlanet \<rparr>] None).
      libCampaign g = \<lparr> planet = zeroPlanet \<rparr> \<and> g_libPct g = Fin 0 \<and>
      connectedDefenses g = [\<lparr> planet = defendedPlanet \<rparr>]) \<and>
   (\<exists>g \<in> set (detectGambits 0 [] [\<lparr> planet = zeroPlanet \<rparr>, \<lparr> planet = brokenPlanet \<rparr>]
                 [\<lparr> planet = defendedPlanet \<rparr>] None).
      libCampaign g = \<lparr> planet = brokenPlanet \<rparr> \<and> g_libPct g = Fin 0 \<and>
      connectedDefenses g = [])"
proof -
  let ?libs = "[\<lparr> planet = zeroPlanet \<rparr>, \<lparr> planet = brokenPlanet \<rparr>]"
  let ?defs = "[\<lparr> planet = defendedPlanet \<rparr>]"
  note inst = detectGambits_excludes_nothing [of 0 "[]" ?libs ?defs None]
  have z: "libPct zeroPlanet = Fin 0 \<and> linked zeroPlanet defendedPlanet"
    by code_simp
  have b: "libPct brokenPlanet = Fin 0 \<and> \<not> linked brokenPlanet defendedPlanet"
    by code_simp
  from inst [THEN conjunct2, rule_format, of 0] z
  have 1: "\<exists>g \<in> set (detectGambits 0 [] ?libs ?defs None).
      libCampaign g = \<lparr> planet = zeroPlanet \<rparr> \<and> g_libPct g = Fin 0 \<and>
      connectedDefenses g = [\<lparr> planet = defendedPlanet \<rparr>]"
    by simp
  from inst [THEN conjunct2, rule_format, of 1] b
  have 2: "\<exists>g \<in> set (detectGambits 0 [] ?libs ?defs None).
      libCampaign g = \<lparr> planet = brokenPlanet \<rparr> \<and> g_libPct g = Fin 0 \<and>
      connectedDefenses g = []"
    by simp
  from 1 2 show ?thesis by (rule conjI)
qed

text \<open>The earlier revision does not exclude a campaign either: its test
  \<^verbatim>\<open>libPct_ < 0\<close> is never true, so it neither skips a campaign nor throws.\<close>

lemma libPct_not_negative: "\<not> jlt (libPct p) (Fin 0)"
  unfolding libPct_def jmax_def jmin_def
  by (cases "jmul (jsub (Fin 1) (jdiv (toNumber (health p)) (maxHealth p))) (Fin 100)") auto

lemma earlierLoop_total:
  "earlierLoop now snaps libs defs imp is =
     Inr (map (\<lambda>i. (analyse now snaps libs defs imp i)\<lparr> connectedLiberation := [] \<rparr>) is)"
  by (induction "is") (simp_all add: libPct_not_negative)

lemma earlier_revision_excludes_nothing:
  "\<exists>gs. detectGambitsEarlier now snaps libs defs w = Inr gs \<and>
        mset (map libCampaign gs) = mset libs"
proof -
  let ?gs = "map (\<lambda>i. (analyse now snaps libs defs (warImpact w) i)\<lparr> connectedLiberation := [] \<rparr>)
               [0..<length libs]"
  have 1: "detectGambitsEarlier now snaps libs defs w = Inr (jsSort scoreCmp ?gs)"
    by (simp add: detectGambitsEarlier_def earlierLoop_total)
  have "mset (map libCampaign (jsSort scoreCmp ?gs)) = image_mset libCampaign (mset ?gs)"
    by (simp add: mset_jsSort)
  also have "\<dots> = mset (map (\<lambda>i. libs ! i) [0..<length libs])"
    by (simp add: analyse_def Let_def comp_def flip: mset_map)
  also have "\<dots> = mset libs"
    by (simp add: map_nth)
  finally show ?thesis using 1 by blast
qed

subsection \<open>Dependence on the clock\<close>

lemma defHour_untimed: "untimed dc \<Longrightarrow> defHour now dc = PInf"
  by (auto simp: untimed_def defHour_def split: option.splits)

lemma minDefHr_untimed:
  "\<forall>dc \<in> set conn. untimed dc \<Longrightarrow> minDefHr now conn = minDefHr now' conn"
  by (simp add: minDefHr_def defHour_untimed cong: map_cong)

lemma buildConditions_untimed:
  assumes "\<forall>dc \<in> set conn. untimed dc"
  shows "buildConditions now lc nro t conn reqs = buildConditions now' lc nro t conn reqs"
proof -
  from assms have "minDefHr now conn = minDefHr now' conn"
    by (rule minDefHr_untimed)
  then show ?thesis
    unfolding buildConditions_def by (simp cong: option.case_cong if_cong)
qed

lemma timeScore_untimed:
  assumes "\<forall>dc \<in> set conn. untimed dc"
  shows "timeScore now t conn = timeScore now' t conn"
proof -
  from assms have "minDefHr now conn = minDefHr now' conn"
    by (rule minDefHr_untimed)
  then show ?thesis
    unfolding timeScore_def by (simp cong: option.case_cong if_cong)
qed

lemma calcSuccessPct_untimed:
  assumes "\<forall>dc \<in> set conn. untimed dc"
  shows "calcSuccessPct now lib r t conn conds = calcSuccessPct now' lib r t conn conds"
  unfolding calcSuccessPct_def by (simp only: timeScore_untimed [OF assms, of now t now'])

lemma analyse_untimed:
  assumes "\<forall>dc \<in> set defs. linked (planet (libs ! i)) (planet dc) \<longrightarrow> untimed dc"
  shows "analyse now snaps libs defs imp i = analyse now' snaps libs defs imp i"
proof -
  let ?conn = "filter (\<lambda>dc. linked (planet (libs ! i)) (planet dc)) defs"
  from assms have u: "\<forall>dc \<in> set ?conn. untimed dc"
    by simp
  show ?thesis
    unfolding analyse_def Let_def
    by (simp add: buildConditions_untimed [OF u, of now _ _ _ _ now']
                  calcSuccessPct_untimed [OF u, of now _ _ _ _ now'])
qed

text \<open>
  Claim C10, as stated, makes the result depend on the arguments and the snapshot store
  only. With the same arguments and the same (empty) store, the score of the one gambit
  is 55 when the clock reads 0 and 25 when it reads 6 hours: the defense then ends
  before the liberation would complete.
\<close>

theorem clock_dependence_counterexample:
  "detectGambits 0 [] [\<lparr> planet = examplePlanet \<rparr>] [\<lparr> planet = defendedPlanet \<rparr>] None \<noteq>
   detectGambits 21600000 [] [\<lparr> planet = examplePlanet \<rparr>] [\<lparr> planet = defendedPlanet \<rparr>] None"
proof -
  have a: "map successPct
             (detectGambits 0 [] [\<lparr> planet = examplePlanet \<rparr>] [\<lparr> planet = defendedPlanet \<rparr>] None)
           = [Fin 55]"
    by code_simp
  have b: "map successPct
             (detectGambits 21600000 [] [\<lparr> planet = examplePlanet \<rparr>]
                [\<lparr> planet = defendedPlanet \<rparr>] None)
           = [Fin 25]"
    by code_simp
  show ?thesis
  proof
    assume "detectGambits 0 [] [\<lparr> planet = examplePlanet \<rparr>] [\<lparr> planet = defendedPlanet \<rparr>] None =
      detectGambits 21600000 [] [\<lparr> planet = examplePlanet \<rparr>] [\<lparr> planet = defendedPlanet \<rparr>] None"
    with a b have "[Fin 55] = [Fin 25]" by simp
    then show False by simp
  qed
qed

text \<open>
  Claim C10, amended. A detection pass is a function of its arguments, the snapshot
  store and the clock, which it reads through \<^verbatim>\<open>hoursLeft\<close> for the end time of a
  connected defense campaign: two calls of \<^verbatim>\<open>detectGambits\<close> with identical arguments
  and store give equal results whatever the clock reads, provided that no liberation
  campaign is connected to a defense campaign that carries an end time.
\<close>

theorem detectGambits_clock_independent:
  assumes "\<forall>i < length libs. \<forall>dc \<in> set defs.
             linked (planet (libs ! i)) (planet dc) \<longrightarrow> untimed dc"
  shows "detectGambits now snaps libs defs w = detectGambits now' snaps libs defs w"
proof -
  have "map (analyse now snaps libs defs (warImpact w)) [0..<length libs] =
        map (analyse now' snaps libs defs (warImpact w)) [0..<length libs]"
    using assms by (intro map_cong refl analyse_untimed) simp
  then show ?thesis
    unfolding detectGambits_def by (rule arg_cong)
qed

theorem detectGambits_clock_independent_witness:
  "linked examplePlanet openEndedPlanet \<and>
   detectGambits 0 exampleStore [\<lparr> planet = examplePlanet \<rparr>]
      [\<lparr> planet = openEndedPlanet \<rparr>, \<lparr> planet = farPlanet \<rparr>] None =
   detectGambits 21600000 exampleStore [\<lparr> planet = examplePlanet \<rparr>]
      [\<lparr> planet = openEndedPlanet \<rparr>, \<lparr> planet = farPlanet \<rparr>] None"
proof -
  have l: "linked examplePlanet openEndedPlanet \<and> untimed \<lparr> planet = openEndedPlanet \<rparr> \<and>
           \<not> linked examplePlanet farPlanet"
    by code_simp
  then have h: "\<forall>i < length [\<lparr> planet = examplePlanet \<rparr>].
          \<forall>dc \<in> set [\<lparr> planet = openEndedPlanet \<rparr>, \<lparr> planet = farPlanet \<rparr>].
             linked (planet ([\<lparr> planet = examplePlanet \<rparr>] ! i)) (planet dc) \<longrightarrow> untimed dc"
    by simp
  from l detectGambits_clock_independent [OF h, of 0 exampleStore None 21600000]
  show ?thesis by simp
qed

subsection \<open>Scout targets\<close>

lemma planetByIndex_fold:
  assumes "\<forall>k p. m k = Some p \<longrightarrow> index p = Some k"
  shows "fold (\<lambda>p m. case index p of None \<Rightarrow> m | Some k \<Rightarrow> m(k \<mapsto> p)) ps m k = Some p
         \<Longrightarrow> index p = Some k"
  using assms by (induction ps arbitrary: m) (auto split: option.splits if_splits)

lemma planetByIndex_index: "planetByIndex ps k = Some p \<Longrightarrow> index p = Some k"
  unfolding planetByIndex_def by (rule planetByIndex_fold [of Map.empty]) auto

lemma lookupPlanet_index: "lookupPlanet (planetByIndex ps) idx = Some p \<Longrightarrow> index p = idx"
  by (cases idx) (auto simp: lookupPlanet_def dest: planetByIndex_index)

lemma toLowerCase_empty [simp]: "toLowerCase s = [] \<longleftrightarrow> s = []"
  by (simp add: toLowerCase_def)

lemma collectTargets_sound:
  "t \<in> set (collectTargets active (planetByIndex ps) idxs) \<Longrightarrow>
   index (t_planet t) \<notin> set active \<and>
   (\<exists>owner. currentOwner (t_planet t) = Some owner \<and> owner \<noteq> [] \<and>
       \<not> includesStr (toLowerCase owner) ''human'')"
proof (induction idxs)
  case Nil
  then show ?case by simp
next
  case (Cons idx rest)
  show ?case
  proof (cases "t \<in> set (collectTargets active (planetByIndex ps) rest)")
    case True
    then show ?thesis by (rule Cons.IH)
  next
    case False
    with Cons.prems obtain p where
      a: "idx \<notin> set active" and
      l: "lookupPlanet (planetByIndex ps) idx = Some p" and
      o: "\<not> (toLowerCase (case currentOwner p of None \<Rightarrow> [] | Some s \<Rightarrow> s) = [] \<or>
             includesStr (toLowerCase (case currentOwner p of None \<Rightarrow> [] | Some s \<Rightarrow> s))
               ''human'')" and
      t: "t_planet t = p"
      by (auto simp: Let_def split: if_splits option.splits)
    from l have "index p = idx"
      by (rule lookupPlanet_index)
    with a t o show ?thesis
      by (cases "currentOwner p") auto
  qed
qed

text \<open>
  Claim C8. For every call \<^verbatim>\<open>detectScoutTargets(defenseCampaigns, liberationCampaigns, allPlanets)\<close>,
  no target planet of any result is the planet of an active liberation or defense
  campaign (it does not even share its index with one), and every target planet has an
  owner that is recorded, not empty, and does not contain \<open>human\<close> in lower case.
\<close>

theorem scout_targets_uncontested_enemy:
  "\<forall>r \<in> set (detectScoutTargets defs libs allPlanets). \<forall>t \<in> set (targets r).
      index (t_planet t) \<notin> set (map (\<lambda>c. index (planet c)) (libs @ defs)) \<and>
      t_planet t \<notin> set (map planet (libs @ defs)) \<and>
      (\<exists>owner. currentOwner (t_planet t) = Some owner \<and> owner \<noteq> [] \<and>
          \<not> includesStr (toLowerCase owner) ''human'')"
proof (intro ballI)
  fix r t
  assume r: "r \<in> set (detectScoutTargets defs libs allPlanets)" and t: "t \<in> set (targets r)"
  let ?active = "map (\<lambda>c. index (planet c)) libs @ map (\<lambda>c. index (planet c)) defs"
  from r obtain dc where "targets r = scoutTargetsOf ?active allPlanets dc"
    by (auto simp: detectScoutTargets_def Let_def set_jsSort split: if_splits)
  with t have "t \<in> set (collectTargets ?active (planetByIndex allPlanets)
                            (connectedIndices (planet dc) allPlanets))"
    by (simp add: scoutTargetsOf_def set_jsSort)
  then have s: "index (t_planet t) \<notin> set ?active \<and>
     (\<exists>owner. currentOwner (t_planet t) = Some owner \<and> owner \<noteq> [] \<and>
         \<not> includesStr (toLowerCase owner) ''human'')"
    by (rule collectTargets_sound)
  then have "t_planet t \<notin> set (map planet (libs @ defs))"
    by auto
  with s show "index (t_planet t) \<notin> set (map (\<lambda>c. index (planet c)) (libs @ defs)) \<and>
      t_planet t \<notin> set (map planet (libs @ defs)) \<and>
      (\<exists>owner. currentOwner (t_planet t) = Some owner \<and> owner \<noteq> [] \<and>
          \<not> includesStr (toLowerCase owner) ''human'')"
    by simp
qed

theorem scout_targets_uncontested_enemy_witness:
  "map (\<lambda>r. map t_planet (targets r))
     (detectScoutTargets [\<lparr> planet = defendedPlanet \<rparr>] [\<lparr> planet = examplePlanet \<rparr>]
        [examplePlanet, defendedPlanet, zeroPlanet, enemyPlanet, friendlyPlanet])
     = [[enemyPlanet]] \<and>
   index enemyPlanet \<notin> {Some 1, Some 2} \<and>
   (\<exists>owner. currentOwner enemyPlanet = Some owner \<and> owner \<noteq> [] \<and>
       \<not> includesStr (toLowerCase owner) ''human'')"
proof -
  let ?defs = "[\<lparr> planet = defendedPlanet \<rparr>]"
  let ?libs = "[\<lparr> planet = examplePlanet \<rparr>]"
  let ?all = "[examplePlanet, defendedPlanet, zeroPlanet, enemyPlanet, friendlyPlanet]"
  have e: "map (\<lambda>r. map t_planet (targets r)) (detectScoutTargets ?defs ?libs ?all)
             = [[enemyPlanet]]"
    by code_simp
  then obtain r t where r: "r \<in> set (detectScoutTargets ?defs ?libs ?all)"
    and t: "t \<in> set (targets r)" and p: "t_planet t = enemyPlanet"
    by (auto simp: map_eq_Cons_conv)
  have i: "map (\<lambda>c. index (planet c)) (?libs @ ?defs) = [Some 1, Some 2]"
    by code_simp
  from scout_targets_uncontested_enemy [of ?defs ?libs ?all] r t
  have "index (t_planet t) \<notin> set (map (\<lambda>c. index (planet c)) (?libs @ ?defs)) \<and>
      (\<exists>owner. currentOwner (t_planet t) = Some owner \<and> owner \<noteq> [] \<and>
          \<not> includesStr (toLowerCase owner) ''human'')"
    by blast
  with e p i show ?thesis by simp
qed

subsection \<open>The score\<close>

lemma progressScore_mono: "jle a b \<Longrightarrow> jleq (progressScore a) (progressScore b)"
  by (cases a; cases b) (auto simp: jleq_def jle_def jmin_def progressScore_def divide_right_mono)

lemma progressScore_not_PInf: "progressScore a \<noteq> PInf"
  by (cases a) (auto simp: jmin_def progressScore_def)

lemma progressScore_NaN_iff: "progressScore l = NaN \<longleftrightarrow> l = NaN"
  by (cases l) (auto simp: progressScore_def jmin_def)

lemma rateScore_mono:
  "jlt (Fin 0) a \<Longrightarrow> jle a b \<Longrightarrow> jleq (rateScore (Some a)) (rateScore (Some b))"
  by (cases a; cases b) (auto simp: jleq_def jle_def jgt_def jmin_def rateScore_def)

lemma rateScore_cases:
  "rateScore r = NaN \<and> r = Some NaN \<or> (\<exists>x. rateScore r = Fin x \<and> r \<noteq> Some NaN)"
proof (cases r)
  case None
  then show ?thesis by (simp add: rateScore_def)
next
  case (Some v)
  then show ?thesis
    by (cases v) (auto simp: jgt_def jmin_def jmax_def rateScore_def)
qed

lemma rateScore_not_PInf: "rateScore r \<noteq> PInf"
  using rateScore_cases [of r] by auto

lemma isFinite_timeScore: "isFinite (timeScore now t conn)"
proof (cases t)
  case None
  then show ?thesis by (simp add: timeScore_def)
next
  case (Some v)
  show ?thesis
  proof (cases v)
    case (Fin x)
    show ?thesis
      unfolding timeScore_def Some Fin Let_def
      by (cases "minDefHr now conn") (auto simp: jmin_def jmax_def jsub_def)
  qed (simp_all add: timeScore_def Some)
qed

lemma timeScore_Fin: "\<exists>x. timeScore now t conn = Fin x"
  by (rule isFinite_Fin [OF isFinite_timeScore])

lemma timeScore_not_PInf: "timeScore now t conn \<noteq> PInf"
  using timeScore_Fin [of now t conn] by auto

lemma passScore_Fin: "\<exists>x. passScore conds = Fin x"
  by (simp add: passScore_def)

lemma passScore_not_PInf: "passScore conds \<noteq> PInf"
  by (simp add: passScore_def)

lemma sum2_not_PInf: "jadd (progressScore l) (rateScore r) \<noteq> PInf"
  by (intro jadd_not_PInf progressScore_not_PInf rateScore_not_PInf)

lemma sum3_not_PInf:
  "jadd (jadd (progressScore l) (rateScore r)) (timeScore now t conn) \<noteq> PInf"
  by (intro jadd_not_PInf sum2_not_PInf timeScore_not_PInf)

lemma score_mono:
  assumes "jleq (jadd (progressScore l1) (rateScore r1)) (jadd (progressScore l2) (rateScore r2))"
  shows "jleq (calcSuccessPct now l1 r1 t conn conds) (calcSuccessPct now l2 r2 t conn conds)"
proof -
  from assms
  have "jleq (jadd (jadd (progressScore l1) (rateScore r1)) (timeScore now t conn))
             (jadd (jadd (progressScore l2) (rateScore r2)) (timeScore now t conn))"
    by (rule jadd_mono_left [OF _ sum2_not_PInf timeScore_not_PInf])
  then have "jleq (jadd (jadd (jadd (progressScore l1) (rateScore r1)) (timeScore now t conn))
                     (passScore conds))
                  (jadd (jadd (jadd (progressScore l2) (rateScore r2)) (timeScore now t conn))
                     (passScore conds))"
    by (rule jadd_mono_left [OF _ sum3_not_PInf passScore_not_PInf])
  then have "jleq (jround (jadd (jadd (jadd (progressScore l1) (rateScore r1))
                     (timeScore now t conn)) (passScore conds)))
                  (jround (jadd (jadd (jadd (progressScore l2) (rateScore r2))
                     (timeScore now t conn)) (passScore conds)))"
    by (rule jround_mono)
  then have "jleq (jmin (Fin 100) (jround (jadd (jadd (jadd (progressScore l1) (rateScore r1))
                     (timeScore now t conn)) (passScore conds))))
                  (jmin (Fin 100) (jround (jadd (jadd (jadd (progressScore l2) (rateScore r2))
                     (timeScore now t conn)) (passScore conds))))"
    by (rule jmin_mono)
  then show ?thesis
    unfolding calcSuccessPct_def Let_def jadd_zero by (rule jmax_mono)
qed

text \<open>
  Claim C9. \<^verbatim>\<open>calcSuccessPct\<close> is monotonically non-decreasing in its \<open>libPct\<close> argument
  when all other arguments are held fixed, and, for net rates greater than 0,
  monotonically non-decreasing in its \<open>netRate\<close> argument when all other arguments are
  held fixed: when the argument grows (\<^verbatim>\<open><=\<close>), the score stays or grows (\<open>jleq\<close>:
  \<^verbatim>\<open><=\<close> holds between the two scores, or both are \<open>NaN\<close> because a fixed argument is).
\<close>

theorem calcSuccessPct_monotone:
  "(jle l1 l2 \<longrightarrow>
      jleq (calcSuccessPct now l1 r t conn conds) (calcSuccessPct now l2 r t conn conds)) \<and>
   (jlt (Fin 0) r1 \<and> jle r1 r2 \<longrightarrow>
      jleq (calcSuccessPct now l (Some r1) t conn conds)
           (calcSuccessPct now l (Some r2) t conn conds))"
proof (intro conjI impI)
  assume "jle l1 l2"
  then have "jleq (progressScore l1) (progressScore l2)"
    by (rule progressScore_mono)
  then have "jleq (jadd (progressScore l1) (rateScore r)) (jadd (progressScore l2) (rateScore r))"
    by (rule jadd_mono_left [OF _ progressScore_not_PInf rateScore_not_PInf])
  then show "jleq (calcSuccessPct now l1 r t conn conds) (calcSuccessPct now l2 r t conn conds)"
    by (rule score_mono)
next
  assume a: "jlt (Fin 0) r1 \<and> jle r1 r2"
  then have "jleq (rateScore (Some r1)) (rateScore (Some r2))"
    by (intro rateScore_mono) simp_all
  then have "jleq (jadd (progressScore l) (rateScore (Some r1)))
                  (jadd (progressScore l) (rateScore (Some r2)))"
    by (rule jadd_mono_right [OF _ rateScore_not_PInf progressScore_not_PInf])
  then show "jleq (calcSuccessPct now l (Some r1) t conn conds)
           (calcSuccessPct now l (Some r2) t conn conds)"
    by (rule score_mono)
qed

theorem calcSuccessPct_monotone_witness:
  "jle (Fin 40) (Fin 60) \<and>
   calcSuccessPct 0 (Fin 40) (Some (Fin (5 / 2))) None [] [] = Fin 25 \<and>
   calcSuccessPct 0 (Fin 60) (Some (Fin (5 / 2))) None [] [] = Fin 30 \<and>
   jleq (calcSuccessPct 0 (Fin 40) (Some (Fin (5 / 2))) None [] [])
        (calcSuccessPct 0 (Fin 60) (Some (Fin (5 / 2))) None [] []) \<and>
   jlt (Fin 0) (Fin (5 / 2)) \<and> jle (Fin (5 / 2)) (Fin 5) \<and>
   jleq (calcSuccessPct 0 (Fin 40) (Some (Fin (5 / 2))) None [] [])
        (calcSuccessPct 0 (Fin 40) (Some (Fin 5)) None [] [])"
proof -
  have h1: "jle (Fin 40) (Fin 60)"
    by (simp add: jle_def)
  have h2: "jlt (Fin 0) (Fin (5 / 2)) \<and> jle (Fin (5 / 2)) (Fin 5)"
    by (simp add: jle_def)
  have v: "calcSuccessPct 0 (Fin 40) (Some (Fin (5 / 2))) None [] [] = Fin 25 \<and>
           calcSuccessPct 0 (Fin 60) (Some (Fin (5 / 2))) None [] [] = Fin 30"
    by code_simp
  from calcSuccessPct_monotone
         [of "Fin 40" "Fin 60" 0 "Some (Fin (5 / 2))" None "[]" "[]" "Fin (5 / 2)" "Fin 5" "Fin 40"]
    h1 h2 v
  show ?thesis by blast
qed

text \<open>The liberation percentage and the score are in the range from 0 to 100 unless they
  are \<open>NaN\<close>, and the lemmas say when they are.\<close>

lemma libPct_range:
  "libPct p = NaN \<or> (\<exists>x. 0 \<le> x \<and> x \<le> 100 \<and> libPct p = Fin x)"
  unfolding libPct_def jmax_def jmin_def
  by (cases "jmul (jsub (Fin 1) (jdiv (toNumber (health p)) (maxHealth p))) (Fin 100)") auto

lemma libPct_NaN_iff:
  "libPct p = NaN \<longleftrightarrow>
     truthy (maxHealth p) \<and>
     (toNumber (health p) = NaN \<or>
      (\<not> isFinite (toNumber (health p)) \<and> \<not> isFinite (maxHealth p)))"
  unfolding libPct_def
  by (cases "toNumber (health p)"; cases "maxHealth p")
     (auto simp: truthy_def jmax_def jmin_def jsub_def)

lemma calcSuccessPct_range:
  "calcSuccessPct now l r t conn conds = NaN \<or>
   (\<exists>k::int. 0 \<le> k \<and> k \<le> 100 \<and> calcSuccessPct now l r t conn conds = Fin (of_int k))"
  unfolding calcSuccessPct_def Let_def by (rule clamp_round_range)

lemma calcSuccessPct_NaN_iff:
  "calcSuccessPct now l r t conn conds = NaN \<longleftrightarrow> l = NaN \<or> r = Some NaN"
proof -
  obtain x where t: "timeScore now t conn = Fin x"
    using timeScore_Fin by blast
  obtain y where c: "passScore conds = Fin y"
    using passScore_Fin by blast
  have "jadd (jadd (jadd (progressScore l) (rateScore r)) (Fin x)) (Fin y) = NaN
        \<longleftrightarrow> l = NaN \<or> r = Some NaN"
    using rateScore_cases [of r] progressScore_NaN_iff [of l]
    by (cases "progressScore l") auto
  then show ?thesis
    unfolding calcSuccessPct_def Let_def jadd_zero t c clamp_round_NaN_iff .
qed

text \<open>
  Claim C5 says that \<^verbatim>\<open>libPct(planet)\<close> lies in the closed interval from 0 to 100 for
  every planet, large or negative health values included, and that \<^verbatim>\<open>calcSuccessPct\<close>
  returns an integer from 0 to 100 for every combination of arguments. The clamps
  \<^verbatim>\<open>Math.max(0, Math.min(100, x))\<close> let \<open>NaN\<close> through: the liberation percentage of a
  planet whose health values are both \<open>Infinity\<close> is \<open>NaN\<close>, the score for a
  percentage \<open>NaN\<close> is \<open>NaN\<close>, and so is the score that \<^verbatim>\<open>detectGambits\<close> gives a
  planet whose \<open>maxHealth\<close> and \<open>regenPerSecond\<close> are 0.
\<close>

theorem clamp_lets_NaN_through:
  "libPct overflowPlanet = NaN \<and>
   calcSuccessPct 0 NaN None None [] [] = NaN \<and>
   map g_libPct (detectGambits 0 [] [\<lparr> planet = brokenPlanet \<rparr>] [] None) = [Fin 0] \<and>
   map netRate (detectGambits 0 [] [\<lparr> planet = brokenPlanet \<rparr>] [] None) = [Some NaN] \<and>
   map successPct (detectGambits 0 [] [\<lparr> planet = brokenPlanet \<rparr>] [] None) = [NaN]"
  by code_simp

subsection \<open>Ranking\<close>

lemma hasDef_cases: "hasDef g = 0 \<or> hasDef g = 1"
  by (simp add: hasDef_def)

text \<open>Gambits with a connected defense come before those without.\<close>

lemma defended_first:
  "sorted_wrt (\<lambda>a b. hasDef b \<le> hasDef a) (detectGambits now snaps libs defs w)"
  unfolding detectGambits_def
proof (rule sorted_wrt_jsSort)
  fix x y :: gambit
  assume "\<not> jgt (gambitCmp x y) (Fin 0)"
  then show "hasDef y \<le> hasDef x"
    using hasDef_cases [of x] hasDef_cases [of y]
    by (auto simp: gambitCmp_def jgt_def split: if_splits)
next
  fix x y :: gambit
  assume "jgt (gambitCmp x y) (Fin 0)"
  then show "hasDef x \<le> hasDef y"
    using hasDef_cases [of x] hasDef_cases [of y]
    by (auto simp: gambitCmp_def jgt_def split: if_splits)
qed simp

text \<open>When no score is \<open>NaN\<close>, the list is ranked: connected gambits first, and by
  non-increasing score within each of the two groups.\<close>

lemma ranked_when_scores_are_numbers:
  assumes num: "\<forall>g \<in> set (detectGambits now snaps libs defs w). successPct g \<noteq> NaN"
  shows "sorted_wrt (\<lambda>a b. hasDef b \<le> hasDef a \<and>
                          (hasDef a = hasDef b \<longrightarrow> jge (successPct a) (successPct b)))
           (detectGambits now snaps libs defs w)"
proof -
  define sc :: "gambit \<Rightarrow> real"
    where "sc = (\<lambda>g. case successPct g of Fin s \<Rightarrow> s | _ \<Rightarrow> 0)"
  define R :: "gambit \<Rightarrow> gambit \<Rightarrow> bool"
    where "R = (\<lambda>a b. hasDef b < hasDef a \<or> (hasDef a = hasDef b \<and> sc b \<le> sc a))"
  let ?gs = "map (analyse now snaps libs defs (warImpact w)) [0..<length libs]"
  have fin: "successPct g = Fin (sc g)" if "g \<in> set ?gs" for g
  proof -
    from that obtain i where g: "g = analyse now snaps libs defs (warImpact w) i"
      by auto
    from that num have "successPct g \<noteq> NaN"
      by (auto simp: detectGambits_def set_jsSort)
    moreover have "successPct g = NaN \<or> (\<exists>k::int. successPct g = Fin (of_int k))"
      unfolding g analyse_def Let_def using calcSuccessPct_range by (simp, blast)
    ultimately show ?thesis
      by (auto simp: sc_def)
  qed
  have "sorted_wrt R (jsSort gambitCmp ?gs)"
  proof (rule sorted_wrt_jsSort)
    fix a b c
    assume "R a b" "R b c"
    then show "R a c"
      by (auto simp: R_def)
  next
    fix x y
    assume "x \<in> set ?gs" "y \<in> set ?gs" "\<not> jgt (gambitCmp x y) (Fin 0)"
    then show "R x y"
      using hasDef_cases [of x] hasDef_cases [of y] fin [of x] fin [of y]
      by (auto simp: R_def gambitCmp_def jgt_def jsub_def split: if_splits)
  next
    fix x y
    assume "x \<in> set ?gs" "y \<in> set ?gs" "jgt (gambitCmp x y) (Fin 0)"
    then show "R y x"
      using hasDef_cases [of x] hasDef_cases [of y] fin [of x] fin [of y]
      by (auto simp: R_def gambitCmp_def jgt_def jsub_def split: if_splits)
  qed
  then have "sorted_wrt R (detectGambits now snaps libs defs w)"
    by (simp add: detectGambits_def)
  moreover have "R a b \<Longrightarrow> hasDef b \<le> hasDef a \<and>
      (hasDef a = hasDef b \<longrightarrow> jge (successPct a) (successPct b))"
    if "a \<in> set (detectGambits now snaps libs defs w)"
       "b \<in> set (detectGambits now snaps libs defs w)"
    for a b
    using that fin [of a] fin [of b]
    by (auto simp: R_def detectGambits_def set_jsSort jge_def jle_def)
  ultimately show ?thesis
    by (rule sorted_wrt_mono_rel [rotated])
qed

text \<open>
  Claim C3 says that in the list returned by \<^verbatim>\<open>detectGambits\<close> every gambit with a
  connected defense comes before every gambit without, and that within each of the two
  groups the gambits are ordered by non-increasing \<open>successPct\<close>. With the three
  campaigns below, none connected to a defense, the scores are 5, \<open>NaN\<close> and 23: the
  comparison function returns \<open>NaN\<close> against the second gambit, the sort leaves the
  array as it is, and the gambit with score 23 is ranked after the one with score 5.
\<close>

theorem ranking_upset_by_NaN_score:
  "map successPct
     (detectGambits 0 []
        [\<lparr> planet = zeroPlanet \<rparr>, \<lparr> planet = brokenPlanet \<rparr>, \<lparr> planet = halfPlanet \<rparr>] [] None)
     = [Fin 5, NaN, Fin 23] \<and>
   map connectedDefenses
     (detectGambits 0 []
        [\<lparr> planet = zeroPlanet \<rparr>, \<lparr> planet = brokenPlanet \<rparr>, \<lparr> planet = halfPlanet \<rparr>] [] None)
     = [[], [], []]"
  by code_simp

end
